theory Spec2Isabelle
  imports Complex_Main "HOL-Library.AList"
begin

section \<open>Synapse load balancer: the embedding of load_balancer.py\<close>

text \<open>
  The load balancer keeps two module-level variables, the list \<open>healthy_servers\<close> and
  the iterator \<open>server_iterator = cycle(healthy_servers)\<close>. A background task probes
  every configured backend and republishes the list; the request handler \<open>proxy\<close>
  picks the next backend from the iterator and relays one request to it.

  The program runs on one asyncio event loop, so a coroutine is interrupted only at an
  \<open>await\<close>. Lines 44 to 48 (compare and republish) and lines 91 to 94 (test and select)
  contain none: each is one atomic step on the shared state. What the network answers
  is an input of the model.
\<close>

subsection \<open>Configuration\<close>

definition BACKEND_SERVERS :: "string list" where
  "BACKEND_SERVERS =
     [''http://localhost:8000'', ''http://localhost:8001'', ''http://localhost:8002'']"

definition HEALTH_CHECK_INTERVAL :: int where
  "HEALTH_CHECK_INTERVAL = 10"

subsection \<open>Errors\<close>

text \<open>
  The two exception classes the source catches around network calls, each with the
  text that \<open>str(e)\<close> gives.
\<close>

datatype transport_error = ClientError string | TimeoutError string

text \<open>
  What a request handler can raise: the \<open>HTTPException\<close> of lines 92 and 129 (status
  code and detail), and the \<open>StopIteration\<close> that \<open>next\<close> raises on an iterator with
  nothing to give, which line 94 does not catch.
\<close>

datatype error = HTTPException int string | StopIteration

fun error_text :: "transport_error \<Rightarrow> string" where
  "error_text (ClientError msg) = msg"
| "error_text (TimeoutError msg) = msg"

subsection \<open>itertools.cycle over the shared list\<close>

text \<open>
  \<open>cycle(xs)\<close> holds an iterator over \<open>xs\<close>, a list \<open>saved\<close> of the items already given
  and an index into it. \<open>next\<close> first drains the iterator, saving each item; once the
  iterator is exhausted it is dropped and the saved items are replayed from index 0,
  wrapping around; with nothing saved, \<open>next\<close> raises \<open>StopIteration\<close> (\<open>None\<close> here).

  Every cycle the program builds iterates the one list object bound to
  \<open>healthy_servers\<close>, which is mutated in place and never rebound. The list iterator is
  therefore a position into the current contents of that list: \<open>cy_it = Some i\<close>, and
  \<open>None\<close> once it is exhausted.
\<close>

record cycle =
  cy_it :: "nat option"
  cy_saved :: "string list"
  cy_index :: nat

definition new_cycle :: cycle where
  "new_cycle = \<lparr>cy_it = Some 0, cy_saved = [], cy_index = 0\<rparr>"

definition cycle_replay :: "cycle \<Rightarrow> string option \<times> cycle" where
  "cycle_replay c =
     (if cy_saved c = [] then (None, c)
      else (Some (cy_saved c ! cy_index c),
            c\<lparr>cy_index := (if cy_index c + 1 \<ge> length (cy_saved c) then 0
                            else cy_index c + 1)\<rparr>))"

definition cycle_next :: "string list \<Rightarrow> cycle \<Rightarrow> string option \<times> cycle" where
  "cycle_next xs c =
     (case cy_it c of
        Some i \<Rightarrow>
          if i < length xs
          then (Some (xs ! i), c\<lparr>cy_it := Some (i + 1), cy_saved := cy_saved c @ [xs ! i]\<rparr>)
          else cycle_replay (c\<lparr>cy_it := None\<rparr>)
      | None \<Rightarrow> cycle_replay c)"

subsection \<open>The shared state\<close>

record lb_state =
  healthy_servers :: "string list"
  server_iterator :: cycle

text \<open>Lines 23 and 24: the state when the module has been loaded.\<close>

definition init_state :: lb_state where
  "init_state = \<lparr>healthy_servers = [], server_iterator = new_cycle\<rparr>"

subsection \<open>Health checks\<close>

text \<open>
  The probing loop of lines 36 to 42 (and 63 to 69): \<open>get url\<close> is what
  \<open>session.get(url, timeout=2)\<close> brings, either the status code of the response or one
  of the two caught exceptions. A caught exception skips the backend and the loop goes
  on. The source catches no other exception class, and none is modelled.
\<close>

fun probe_servers ::
  "(string \<Rightarrow> transport_error + int) \<Rightarrow> string list \<Rightarrow> string list \<Rightarrow> string list" where
  "probe_servers get [] acc = acc"
| "probe_servers get (server # rest) acc =
     (case get (server @ ''/health'') of
        Inr status \<Rightarrow>
          if status = 200 then probe_servers get rest (acc @ [server])
          else probe_servers get rest acc
      | Inl e \<Rightarrow> probe_servers get rest acc)"

text \<open>
  One pass of the body of \<open>while True\<close> up to the \<open>sleep\<close> (lines 34 to 48), over the
  configured list \<open>servers\<close>.
\<close>

definition health_check_cycle ::
  "string list \<Rightarrow> (string \<Rightarrow> transport_error + int) \<Rightarrow> lb_state \<Rightarrow> lb_state" where
  "health_check_cycle servers get s =
     (let currently_healthy = probe_servers get servers []
      in if set currently_healthy \<noteq> set (healthy_servers s)
         then s\<lparr>healthy_servers := [] @ currently_healthy, server_iterator := new_cycle\<rparr>
         else s)"

text \<open>The startup part of \<open>lifespan\<close> (lines 61 to 72).\<close>

definition lifespan ::
  "string list \<Rightarrow> (string \<Rightarrow> transport_error + int) \<Rightarrow> lb_state \<Rightarrow> lb_state" where
  "lifespan servers get s =
     (let initially_healthy = probe_servers get servers []
      in s\<lparr>healthy_servers := healthy_servers s @ initially_healthy,
            server_iterator := new_cycle\<rparr>)"

subsection \<open>The proxy\<close>

text \<open>
  Header collections arrive as the list of pairs that \<open>items()\<close> yields: a name may
  occur more than once. A Python \<open>dict\<close> is an association list with distinct keys in
  insertion order; storing under a key already there replaces its value in place.
\<close>

type_synonym items = "(string \<times> string) list"

record request =
  req_method :: string
  req_path :: string
  req_headers :: items
  req_query_params :: items
  req_body :: string

record upstream_request =
  up_method :: string
  up_url :: string
  up_headers :: items
  up_params :: items
  up_data :: string
  up_timeout_total :: int

record upstream_response =
  resp_status :: int
  resp_headers :: items
  resp_body :: string

record response =
  content :: string
  status_code :: int
  headers :: items

text \<open>
  \<open>str.lower\<close> on a header name. Header names are ASCII tokens: the model turns the
  upper-case ASCII letters into lower case and leaves every other byte as it is.
\<close>

definition lower_char :: "char \<Rightarrow> char" where
  "lower_char c =
     (case map_of (zip ''ABCDEFGHIJKLMNOPQRSTUVWXYZ'' ''abcdefghijklmnopqrstuvwxyz'') c of
        Some l \<Rightarrow> l
      | None \<Rightarrow> c)"

definition lower :: "string \<Rightarrow> string" where
  "lower k = map lower_char k"

text \<open>The dict comprehension \<open>{k: v for k, v in items if keep k}\<close>.\<close>

definition dict_comprehension :: "(string \<Rightarrow> bool) \<Rightarrow> items \<Rightarrow> items" where
  "dict_comprehension keep kvs =
     fold (\<lambda>(k, v) d. if keep k then AList.update k v d else d) kvs []"

text \<open>Lines 91 to 94: the emptiness test and the selection.\<close>

definition select_server :: "lb_state \<Rightarrow> (error + string) \<times> lb_state" where
  "select_server s =
     (if healthy_servers s = []
      then (Inl (HTTPException 503 ''No healthy backend servers available.''), s)
      else case cycle_next (healthy_servers s) (server_iterator s) of
             (None, c) \<Rightarrow> (Inl StopIteration, s\<lparr>server_iterator := c\<rparr>)
           | (Some target_server, c) \<Rightarrow> (Inr target_server, s\<lparr>server_iterator := c\<rparr>))"

text \<open>Lines 97 to 110: the request sent upstream.\<close>

definition backend_request :: "string \<Rightarrow> request \<Rightarrow> upstream_request" where
  "backend_request target_server req =
     \<lparr>up_method = req_method req,
      up_url = target_server @ ''/'' @ req_path req,
      up_headers = dict_comprehension (\<lambda>k. lower k \<noteq> ''host'') (req_headers req),
      up_params = req_query_params req,
      up_data = req_body req,
      up_timeout_total = 120\<rparr>"

text \<open>Lines 113 to 129: the answer built from what the upstream call brought.\<close>

definition relay :: "transport_error + upstream_response \<Rightarrow> error + response" where
  "relay outcome =
     (case outcome of
        Inr r \<Rightarrow>
          Inr \<lparr>content = resp_body r,
               status_code = resp_status r,
               headers = dict_comprehension
                 (\<lambda>k. lower k \<notin> set [''transfer-encoding'', ''connection''])
                 (resp_headers r)\<rparr>
      | Inl e \<Rightarrow>
          Inl (HTTPException 502 (''Bad Gateway or connection error: '' @ error_text e)))"

text \<open>
  The handler. \<open>upstream\<close> is the network: what \<open>session.request(...)\<close> followed by
  \<open>response.read()\<close> brings for a given upstream request. The result carries the new
  state, the log of the upstream requests made, and the response or the exception.
\<close>

definition proxy ::
  "lb_state \<Rightarrow> request \<Rightarrow> (upstream_request \<Rightarrow> transport_error + upstream_response) \<Rightarrow>
     lb_state \<times> upstream_request list \<times> (error + response)" where
  "proxy s req upstream =
     (case select_server s of
        (Inl e, s') \<Rightarrow> (s', [], Inl e)
      | (Inr target_server, s') \<Rightarrow>
          (let r = backend_request target_server req
           in (s', [r], relay (upstream r))))"

subsection \<open>The background loop and its clock\<close>

text \<open>
  What one pass of the body of \<open>while True\<close> meets: the answers to its probes, and the
  time in seconds that passes while it probes (the awaits of lines 35 to 42).
\<close>

record cycle_input =
  ci_get :: "string \<Rightarrow> transport_error + int"
  ci_probing_time :: real

text \<open>
  One pass of the loop with the clock: the pass starts at time \<open>t\<close> in state \<open>s\<close>,
  probes, republishes, and line 50 then sleeps \<open>HEALTH_CHECK_INTERVAL\<close> seconds. The
  result is the time and the state at which the next pass starts.
\<close>

definition health_check_pass ::
  "string list \<Rightarrow> cycle_input \<Rightarrow> real \<times> lb_state \<Rightarrow> real \<times> lb_state" where
  "health_check_pass servers inp ts =
     (case ts of (t, s) \<Rightarrow>
        (t + ci_probing_time inp + of_int HEALTH_CHECK_INTERVAL,
         health_check_cycle servers (ci_get inp) s))"

text \<open>
  \<open>health_check_task\<close> never returns. Its model runs the passes for which an input is
  given and lists, for each pass begun, the time and the state at its start.
\<close>

fun health_check_task ::
  "string list \<Rightarrow> cycle_input list \<Rightarrow> real \<times> lb_state \<Rightarrow> (real \<times> lb_state) list" where
  "health_check_task servers [] ts = [ts]"
| "health_check_task servers (inp # inps) ts =
     ts # health_check_task servers inps (health_check_pass servers inp ts)"

subsection \<open>Runs of the whole program\<close>

text \<open>
  After startup the shared state changes in atomic steps of two kinds, in any order:
  the background task finishes a pass (lines 44 to 48), or a request selects a backend
  (lines 91 to 94).
\<close>

datatype event =
    HealthCheck "string \<Rightarrow> transport_error + int"
  | Request request "upstream_request \<Rightarrow> transport_error + upstream_response"

fun step :: "string list \<Rightarrow> event \<Rightarrow> lb_state \<Rightarrow> lb_state" where
  "step servers (HealthCheck get) s = health_check_cycle servers get s"
| "step servers (Request req upstream) s = fst (proxy s req upstream)"

definition run ::
  "string list \<Rightarrow> (string \<Rightarrow> transport_error + int) \<Rightarrow> event list \<Rightarrow> lb_state" where
  "run servers get0 events = fold (step servers) events (lifespan servers get0 init_state)"

text \<open>The outcomes of \<open>n\<close> consecutive selections, with no health check in between.\<close>

fun selections :: "nat \<Rightarrow> lb_state \<Rightarrow> (error + string) list" where
  "selections 0 s = []"
| "selections (Suc n) s = (case select_server s of (r, s') \<Rightarrow> r # selections n s')"

subsection \<open>The iterator follows the list\<close>

text \<open>
  The invariant that ties the iterator to the list it was built from: during the first
  pass the saved items are the prefix already given; afterwards they are the whole
  list and the index points into it.
\<close>

definition iterator_ok :: "lb_state \<Rightarrow> bool" where
  "iterator_ok s =
     (case cy_it (server_iterator s) of
        Some i \<Rightarrow> i \<le> length (healthy_servers s) \<and>
                  cy_saved (server_iterator s) = take i (healthy_servers s) \<and>
                  cy_index (server_iterator s) = 0
      | None \<Rightarrow> cy_saved (server_iterator s) = healthy_servers s \<and>
                cy_index (server_iterator s) < length (healthy_servers s))"

text \<open>The position in the healthy list that the next selection reads.\<close>

definition cursor :: "lb_state \<Rightarrow> nat" where
  "cursor s =
     (case cy_it (server_iterator s) of
        Some i \<Rightarrow> if i < length (healthy_servers s) then i else 0
      | None \<Rightarrow> cy_index (server_iterator s))"

definition published :: "string list \<Rightarrow> lb_state \<Rightarrow> bool" where
  "published servers s =
     (iterator_ok s \<and> (\<exists>healthy. healthy_servers s = filter healthy servers))"

subsection \<open>Sample inputs\<close>

text \<open>Concrete networks and requests on which the theorems below are exercised.\<close>

definition probe_all_up :: "string \<Rightarrow> transport_error + int" where
  "probe_all_up url = Inr 200"

definition probe_all_down :: "string \<Rightarrow> transport_error + int" where
  "probe_all_down url = Inl (ClientError ''Cannot connect to host'')"

definition probe_8001_only :: "string \<Rightarrow> transport_error + int" where
  "probe_8001_only url =
     (if url = ''http://localhost:8001/health'' then Inr 200
      else if url = ''http://localhost:8000/health'' then Inr 503
      else Inl (TimeoutError []))"

definition sample_request :: request where
  "sample_request =
     \<lparr>req_method = ''POST'',
      req_path = ''v1/chat/completions'',
      req_headers = [(''host'', ''client.example''), (''content-type'', ''application/json'')],
      req_query_params = [(''stream'', ''false'')],
      req_body = ''{}''\<rparr>"

definition upstream_created ::
  "upstream_request \<Rightarrow> transport_error + upstream_response" where
  "upstream_created r =
     Inr \<lparr>resp_status = 201,
          resp_headers = [(''X-Test'', ''1''), (''Transfer-Encoding'', ''chunked'')],
          resp_body = ''hello''\<rparr>"

definition upstream_refused ::
  "upstream_request \<Rightarrow> transport_error + upstream_response" where
  "upstream_refused r = Inl (ClientError ''Cannot connect to host'')"

definition sample_state :: lb_state where
  "sample_state = lifespan BACKEND_SERVERS probe_all_up init_state"

definition sample_state_selected :: lb_state where
  "sample_state_selected =
     \<lparr>healthy_servers = BACKEND_SERVERS,
      server_iterator =
        \<lparr>cy_it = Some 1, cy_saved = [''http://localhost:8000''], cy_index = 0\<rparr>\<rparr>"

definition upstream_timed_out ::
  "upstream_request \<Rightarrow> transport_error + upstream_response" where
  "upstream_timed_out r = Inl (TimeoutError [])"



section \<open>Properties\<close>

subsection \<open>The sample inputs\<close>

lemma sample_state_eq:
  "sample_state = \<lparr>healthy_servers = BACKEND_SERVERS, server_iterator = new_cycle\<rparr>"
  by (simp add: sample_state_def lifespan_def init_state_def BACKEND_SERVERS_def
        probe_all_up_def)

lemma sample_select:
  "select_server sample_state = (Inr ''http://localhost:8000'', sample_state_selected)"
  by (simp add: sample_state_eq sample_state_selected_def select_server_def cycle_next_def
        new_cycle_def BACKEND_SERVERS_def)


lemmas sample_run_defs =
  run_def lifespan_def init_state_def BACKEND_SERVERS_def probe_all_up_def
  probe_8001_only_def health_check_cycle_def

subsection \<open>No healthy backend\<close>

text \<open>
  C1. When the healthy list is empty at selection time, the handler raises the
  HTTPException with status 503, makes no upstream request and leaves the state as
  it is, whatever the request and whatever the network would answer.
\<close>

theorem proxy_no_healthy_backend:
  assumes "healthy_servers s = []"
  shows "proxy s req upstream =
           (s, [], Inl (HTTPException 503 ''No healthy backend servers available.''))"
  using assms by (simp add: proxy_def select_server_def)

theorem proxy_no_healthy_backend_witness:
  "healthy_servers (run BACKEND_SERVERS probe_all_down []) = [] \<and>
   proxy (run BACKEND_SERVERS probe_all_down []) sample_request upstream_created =
     (run BACKEND_SERVERS probe_all_down [], [],
      Inl (HTTPException 503 ''No healthy backend servers available.''))"
proof -
  have h: "healthy_servers (run BACKEND_SERVERS probe_all_down []) = []"
    by (simp add: sample_run_defs probe_all_down_def)
  show ?thesis
    using h proxy_no_healthy_backend [OF h] by simp
qed

subsection \<open>Probing and republishing\<close>

lemma probe_servers_filter:
  "probe_servers get servers acc =
     acc @ filter (\<lambda>b. get (b @ ''/health'') = Inr 200) servers"
  by (induction servers arbitrary: acc) (auto split: sum.splits)

lemma set_health_check_cycle:
  "set (healthy_servers (health_check_cycle servers get s)) = set (probe_servers get servers [])"
  by (simp add: health_check_cycle_def Let_def)

lemma select_server_healthy: "healthy_servers (snd (select_server s)) = healthy_servers s"
  by (simp add: select_server_def split: prod.splits option.splits)

text \<open>
  C2. After a health-check pass, a configured backend is in the healthy list exactly
  when its probe of \<open><base>/health\<close> answered with status 200: any other status and
  either caught exception leave it out. The state before the pass plays no part, so
  one failed probe removes a backend and one successful probe adds it.
\<close>

theorem health_check_membership:
  assumes "b \<in> set servers"
  shows "b \<in> set (healthy_servers (health_check_cycle servers get s)) \<longleftrightarrow>
           get (b @ ''/health'') = Inr 200"
  using assms by (simp add: set_health_check_cycle probe_servers_filter)

theorem health_check_membership_witness:
  "''http://localhost:8001'' \<in> set BACKEND_SERVERS \<and>
   probe_8001_only (''http://localhost:8001'' @ ''/health'') = Inr 200 \<and>
   ''http://localhost:8001'' \<in>
     set (healthy_servers (health_check_cycle BACKEND_SERVERS probe_8001_only init_state)) \<and>
   ''http://localhost:8000'' \<in> set BACKEND_SERVERS \<and>
   probe_8001_only (''http://localhost:8000'' @ ''/health'') = Inr 503 \<and>
   ''http://localhost:8000'' \<notin>
     set (healthy_servers (health_check_cycle BACKEND_SERVERS probe_8001_only sample_state)) \<and>
   ''http://localhost:8002'' \<in> set BACKEND_SERVERS \<and>
   probe_8001_only (''http://localhost:8002'' @ ''/health'') = Inl (TimeoutError []) \<and>
   ''http://localhost:8002'' \<notin>
     set (healthy_servers (health_check_cycle BACKEND_SERVERS probe_8001_only sample_state))"
proof -
  have h1: "''http://localhost:8001'' \<in> set BACKEND_SERVERS"
    and h0: "''http://localhost:8000'' \<in> set BACKEND_SERVERS"
    and h2: "''http://localhost:8002'' \<in> set BACKEND_SERVERS"
    by (simp_all add: BACKEND_SERVERS_def)
  show ?thesis
    using h1 h0 h2
      health_check_membership [OF h1, of probe_8001_only init_state]
      health_check_membership [OF h0, of probe_8001_only sample_state]
      health_check_membership [OF h2, of probe_8001_only sample_state]
    by (simp add: probe_8001_only_def)
qed

text \<open>
  C7. A health-check pass republishes exactly when the set of backends just probed
  healthy differs from the set in the healthy list. Republishing installs the probed
  list and a fresh iterator, whatever the old list was, so that the next selection
  returns the first element of the new list when there is one. When the sets are
  equal the state, and with it the position of the iterator, is left as it was.
\<close>

theorem health_check_replaces_on_change:
  "(set (probe_servers get servers []) \<noteq> set (healthy_servers s) \<longrightarrow>
      healthy_servers (health_check_cycle servers get s) = probe_servers get servers [] \<and>
      server_iterator (health_check_cycle servers get s) = new_cycle \<and>
      (probe_servers get servers [] \<noteq> [] \<longrightarrow>
         fst (select_server (health_check_cycle servers get s)) =
           Inr (hd (probe_servers get servers [])))) \<and>
   (set (probe_servers get servers []) = set (healthy_servers s) \<longrightarrow>
      health_check_cycle servers get s = s)"
proof -
  have "fst (select_server (s\<lparr>healthy_servers := xs, server_iterator := new_cycle\<rparr>)) =
          Inr (hd xs)" if "xs \<noteq> []" for xs
    using that
    by (cases xs) (simp_all add: select_server_def cycle_next_def new_cycle_def)
  then show ?thesis
    by (simp add: health_check_cycle_def Let_def)
qed

theorem health_check_replaces_on_change_witness:
  "set (probe_servers probe_8001_only BACKEND_SERVERS []) \<noteq>
     set (healthy_servers (lifespan BACKEND_SERVERS probe_all_up init_state)) \<and>
   healthy_servers (health_check_cycle BACKEND_SERVERS probe_8001_only
       (lifespan BACKEND_SERVERS probe_all_up init_state)) = [''http://localhost:8001''] \<and>
   server_iterator (health_check_cycle BACKEND_SERVERS probe_8001_only
       (lifespan BACKEND_SERVERS probe_all_up init_state)) = new_cycle \<and>
   fst (select_server (health_check_cycle BACKEND_SERVERS probe_8001_only
       (lifespan BACKEND_SERVERS probe_all_up init_state))) = Inr ''http://localhost:8001'' \<and>
   set (probe_servers probe_all_up BACKEND_SERVERS []) =
     set (healthy_servers (snd (select_server (lifespan BACKEND_SERVERS probe_all_up init_state)))) \<and>
   health_check_cycle BACKEND_SERVERS probe_all_up
       (snd (select_server (lifespan BACKEND_SERVERS probe_all_up init_state))) =
     snd (select_server (lifespan BACKEND_SERVERS probe_all_up init_state))"
proof -
  have p: "probe_servers probe_8001_only BACKEND_SERVERS [] = [''http://localhost:8001'']"
    by (simp add: BACKEND_SERVERS_def probe_8001_only_def)
  have q: "probe_servers probe_all_up BACKEND_SERVERS [] = BACKEND_SERVERS"
    by (simp add: BACKEND_SERVERS_def probe_all_up_def)
  have l: "healthy_servers (lifespan BACKEND_SERVERS probe_all_up init_state) = BACKEND_SERVERS"
    by (simp add: lifespan_def init_state_def q)
  have ch: "set (probe_servers probe_8001_only BACKEND_SERVERS []) \<noteq>
     set (healthy_servers (lifespan BACKEND_SERVERS probe_all_up init_state))"
    unfolding p l by (simp add: BACKEND_SERVERS_def)
  have same: "set (probe_servers probe_all_up BACKEND_SERVERS []) =
     set (healthy_servers (snd (select_server (lifespan BACKEND_SERVERS probe_all_up init_state))))"
    by (simp add: select_server_healthy l q)
  show ?thesis
    using ch same
      health_check_replaces_on_change [of probe_8001_only BACKEND_SERVERS
        "lifespan BACKEND_SERVERS probe_all_up init_state"]
      health_check_replaces_on_change [of probe_all_up BACKEND_SERVERS
        "snd (select_server (lifespan BACKEND_SERVERS probe_all_up init_state))"]
    by (simp add: p)
qed

subsection \<open>Selection\<close>

lemma select_server_ok:
  assumes "iterator_ok s" and "healthy_servers s \<noteq> []"
  shows "\<exists>s'. select_server s = (Inr (healthy_servers s ! cursor s), s') \<and>
              healthy_servers s' = healthy_servers s \<and> iterator_ok s' \<and>
              cursor s' = (cursor s + 1) mod length (healthy_servers s)"
proof (cases "cy_it (server_iterator s)")
  case None
  with assms show ?thesis
    by (auto simp: select_server_def cycle_next_def cycle_replay_def iterator_ok_def
          cursor_def mod_Suc)
next
  case (Some i)
  show ?thesis
  proof (cases "i < length (healthy_servers s)")
    case True
    with Some assms show ?thesis
      by (auto simp: select_server_def cycle_next_def iterator_ok_def cursor_def
            take_Suc_conv_app_nth mod_Suc)
  next
    case False
    with Some assms show ?thesis
      by (cases "healthy_servers s")
         (auto simp: select_server_def cycle_next_def cycle_replay_def iterator_ok_def
            cursor_def)
  qed
qed

lemma cursor_less:
  "iterator_ok s \<Longrightarrow> healthy_servers s \<noteq> [] \<Longrightarrow> cursor s < length (healthy_servers s)"
  by (auto simp: iterator_ok_def cursor_def split: option.splits)

lemma selections_ok:
  assumes "iterator_ok s" and "healthy_servers s \<noteq> []"
  shows "selections n s =
           map (\<lambda>j. Inr (healthy_servers s ! ((cursor s + j) mod length (healthy_servers s))))
             [0..<n]"
  using assms
proof (induction n arbitrary: s)
  case 0
  then show ?case by simp
next
  case (Suc n)
  from select_server_ok [OF Suc.prems] obtain s' where
    sel: "select_server s = (Inr (healthy_servers s ! cursor s), s')" and
    hs: "healthy_servers s' = healthy_servers s" and
    ok: "iterator_ok s'" and
    cur: "cursor s' = (cursor s + 1) mod length (healthy_servers s)"
    by blast
  have lt: "cursor s < length (healthy_servers s)"
    using Suc.prems by (rule cursor_less)
  have ih: "selections n s' =
      map (\<lambda>j. Inr (healthy_servers s ! ((cursor s' + j) mod length (healthy_servers s))))
        [0..<n]"
    using Suc.IH [OF ok] Suc.prems(2) hs by simp
  have shift: "(cursor s' + j) mod length (healthy_servers s) =
               (cursor s + Suc j) mod length (healthy_servers s)" for j
    unfolding cur by (simp add: mod_add_left_eq)
  have "[0..<Suc n] = 0 # map Suc [0..<n]"
    by (simp add: upt_conv_Cons map_Suc_upt del: upt_Suc)
  then show ?case
    using sel ih lt by (simp add: shift comp_def del: upt_Suc)
qed

subsection \<open>What every run preserves\<close>

lemma iterator_ok_new:
  "iterator_ok (s\<lparr>healthy_servers := xs, server_iterator := new_cycle\<rparr>)"
  by (simp add: iterator_ok_def new_cycle_def)

lemma health_check_cycle_ok:
  "iterator_ok s \<Longrightarrow> iterator_ok (health_check_cycle servers get s)"
  by (simp add: health_check_cycle_def Let_def iterator_ok_new)

lemma lifespan_ok: "iterator_ok (lifespan servers get s)"
  by (simp add: lifespan_def Let_def iterator_ok_new)

lemma proxy_state: "fst (proxy s req upstream) = snd (select_server s)"
  by (simp add: proxy_def Let_def split: prod.splits sum.splits)

lemma select_server_keeps_ok:
  assumes "iterator_ok s"
  shows "iterator_ok (snd (select_server s))"
proof (cases "healthy_servers s = []")
  case True
  with assms show ?thesis by (simp add: select_server_def)
next
  case False
  from select_server_ok [OF assms False] show ?thesis by auto
qed

lemma step_published:
  assumes "published servers s"
  shows "published servers (step servers e s)"
proof (cases e)
  case (HealthCheck get)
  have "\<exists>healthy. healthy_servers (health_check_cycle servers get s) = filter healthy servers"
    using assms by (auto simp: published_def health_check_cycle_def Let_def probe_servers_filter)
  with assms show ?thesis
    by (simp add: HealthCheck published_def health_check_cycle_ok)
next
  case (Request req upstream)
  with assms show ?thesis
    by (simp add: published_def proxy_state select_server_keeps_ok select_server_healthy)
qed

lemma fold_step_published:
  "published servers s \<Longrightarrow> published servers (fold (step servers) events s)"
  by (induction events arbitrary: s) (simp_all add: step_published)

lemma run_published: "published servers (run servers get0 events)"
  unfolding run_def
proof (rule fold_step_published)
  have "healthy_servers (lifespan servers get0 init_state) =
          filter (\<lambda>b. get0 (b @ ''/health'') = Inr 200) servers"
    by (simp add: lifespan_def init_state_def probe_servers_filter)
  then show "published servers (lifespan servers get0 init_state)"
    unfolding published_def using lifespan_ok by blast
qed

text \<open>
  C8. In every state a run can reach, a request that finds the healthy list non-empty
  gets a backend from the iterator: \<open>next\<close> does not raise, and the backend is a member
  of the healthy list of that moment.
\<close>

theorem selection_succeeds:
  assumes "healthy_servers (run servers get0 events) \<noteq> []"
  shows "\<exists>b s'. select_server (run servers get0 events) = (Inr b, s') \<and>
           b \<in> set (healthy_servers (run servers get0 events))"
proof -
  have ok: "iterator_ok (run servers get0 events)"
    using run_published [of servers get0 events] by (simp add: published_def)
  from select_server_ok [OF ok assms] cursor_less [OF ok assms] show ?thesis
    by (metis nth_mem)
qed

theorem selection_succeeds_witness:
  "healthy_servers (run BACKEND_SERVERS probe_all_up [HealthCheck probe_8001_only]) \<noteq> [] \<and>
   (\<exists>b s'. select_server (run BACKEND_SERVERS probe_all_up [HealthCheck probe_8001_only]) =
              (Inr b, s') \<and>
            b \<in> set (healthy_servers
                      (run BACKEND_SERVERS probe_all_up [HealthCheck probe_8001_only])))"
proof -
  have ne: "healthy_servers (run BACKEND_SERVERS probe_all_up [HealthCheck probe_8001_only]) \<noteq> []"
    by (simp add: sample_run_defs)
  show ?thesis
    using ne selection_succeeds [OF ne] by simp
qed

text \<open>
  C9. After startup and after every later step, the healthy list holds configured
  backends only; with no backend configured it is empty.
\<close>

theorem healthy_subset_configured:
  "set (healthy_servers (run servers get0 events)) \<subseteq> set servers \<and>
   (servers = [] \<longrightarrow> healthy_servers (run servers get0 events) = [])"
  using run_published [of servers get0 events] by (auto simp: published_def)

theorem healthy_subset_configured_witness:
  "set (healthy_servers (run [] probe_all_up [HealthCheck probe_all_up])) \<subseteq> set [] \<and>
   healthy_servers (run [] probe_all_up [HealthCheck probe_all_up]) = [] \<and>
   set (healthy_servers (run BACKEND_SERVERS probe_all_up [HealthCheck probe_8001_only]))
     \<subseteq> set BACKEND_SERVERS"
  using healthy_subset_configured [of "[]" probe_all_up "[HealthCheck probe_all_up]"]
    healthy_subset_configured [of BACKEND_SERVERS probe_all_up "[HealthCheck probe_8001_only]"]
  by simp

text \<open>
  C3. Let the configured backends be distinct and let any run reach a state whose
  healthy list is not empty and has length \<open>k\<close>. Then \<open>k\<close> consecutive selections
  return every member of the healthy list exactly once, and all further selections
  repeat that order cyclically.
\<close>

theorem round_robin_order:
  assumes "distinct servers"
    and "healthy_servers (run servers get0 events) \<noteq> []"
  shows "\<exists>order. distinct order \<and>
           set order = set (healthy_servers (run servers get0 events)) \<and>
           selections (length (healthy_servers (run servers get0 events)))
             (run servers get0 events) = map Inr order \<and>
           (\<forall>n. selections n (run servers get0 events) =
                  map (\<lambda>j. Inr (order ! (j mod length order))) [0..<n])"
proof -
  define s where "s = run servers get0 events"
  define k where "k = length (healthy_servers s)"
  define order where "order = rotate (cursor s) (healthy_servers s)"
  have pub: "published servers s"
    unfolding s_def by (rule run_published)
  then have ok: "iterator_ok s"
    by (simp add: published_def)
  have ne: "healthy_servers s \<noteq> []"
    using assms(2) by (simp add: s_def)
  then have k: "0 < k"
    by (simp add: k_def)
  from pub assms(1) have "distinct (healthy_servers s)"
    by (auto simp: published_def)
  then have d: "distinct order" and st: "set order = set (healthy_servers s)"
    and len: "length order = k"
    by (simp_all add: order_def k_def)
  have nth: "order ! (j mod k) = healthy_servers s ! ((cursor s + j) mod k)" for j
  proof -
    have "j mod k < length (healthy_servers s)"
      using k by (simp add: k_def)
    then show ?thesis
      by (simp add: order_def nth_rotate k_def mod_add_right_eq)
  qed
  have all: "selections n s = map (\<lambda>j. Inr (order ! (j mod length order))) [0..<n]" for n
    using selections_ok [OF ok ne, of n] nth unfolding len k_def by simp
  have "selections k s = map (\<lambda>j. Inr (order ! j)) [0..<k]"
    unfolding all [of k] len by (rule map_cong) simp_all
  also have "\<dots> = map Inr (map ((!) order) [0..<length order])"
    by (simp add: len)
  also have "\<dots> = map Inr order"
    by (simp only: map_nth)
  finally have "selections k s = map Inr order" .
  with d st all show ?thesis
    unfolding s_def [symmetric] k_def [symmetric] by blast
qed

theorem round_robin_order_witness:
  "distinct BACKEND_SERVERS \<and>
   healthy_servers (run BACKEND_SERVERS probe_all_up []) \<noteq> [] \<and>
   (\<exists>order. distinct order \<and>
      set order = set (healthy_servers (run BACKEND_SERVERS probe_all_up [])) \<and>
      selections (length (healthy_servers (run BACKEND_SERVERS probe_all_up [])))
        (run BACKEND_SERVERS probe_all_up []) = map Inr order \<and>
      (\<forall>n. selections n (run BACKEND_SERVERS probe_all_up []) =
             map (\<lambda>j. Inr (order ! (j mod length order))) [0..<n]))"
proof -
  have d: "distinct BACKEND_SERVERS"
    by (simp add: BACKEND_SERVERS_def)
  have ne: "healthy_servers (run BACKEND_SERVERS probe_all_up []) \<noteq> []"
    by (simp add: sample_run_defs)
  show ?thesis
    using d ne round_robin_order [OF d ne] by simp
qed

subsection \<open>Dict comprehensions\<close>










subsection \<open>What the proxy sends and returns\<close>

lemma proxy_forwarded:
  assumes "select_server s = (Inr b, s')"
  shows "proxy s req upstream =
           (s', [backend_request b req], relay (upstream (backend_request b req)))"
  using assms by (simp add: proxy_def Let_def)







text \<open>
  C6. When the upstream call of a forwarded request ends in one of the two caught
  exceptions (a client error or a timeout), the handler raises the HTTPException with
  status 502 and a detail that carries the text of the exception. The upstream log
  holds the one request to the selected backend: nothing is retried.
\<close>

theorem proxy_bad_gateway:
  assumes "select_server s = (Inr b, s')"
    and "upstream (backend_request b req) = Inl e"
  shows "proxy s req upstream =
           (s', [backend_request b req],
            Inl (HTTPException 502 (''Bad Gateway or connection error: '' @ error_text e)))"
  unfolding proxy_forwarded [OF assms(1)] assms(2) by (simp add: relay_def)

theorem proxy_bad_gateway_witness:
  "select_server sample_state =
     (Inr ''http://localhost:8000'', sample_state_selected) \<and>
   upstream_refused (backend_request ''http://localhost:8000'' sample_request) =
     Inl (ClientError ''Cannot connect to host'') \<and>
   proxy sample_state sample_request upstream_refused =
     (sample_state_selected,
      [backend_request ''http://localhost:8000'' sample_request],
      Inl (HTTPException 502 ''Bad Gateway or connection error: Cannot connect to host'')) \<and>
   upstream_timed_out (backend_request ''http://localhost:8000'' sample_request) =
     Inl (TimeoutError []) \<and>
   proxy sample_state sample_request upstream_timed_out =
     (sample_state_selected,
      [backend_request ''http://localhost:8000'' sample_request],
      Inl (HTTPException 502 ''Bad Gateway or connection error: ''))"
proof -
  have r: "upstream_refused (backend_request ''http://localhost:8000'' sample_request) =
     Inl (ClientError ''Cannot connect to host'')"
    by (simp add: upstream_refused_def)
  have t: "upstream_timed_out (backend_request ''http://localhost:8000'' sample_request) =
     Inl (TimeoutError [])"
    by (simp add: upstream_timed_out_def)
  show ?thesis
    using sample_select r t
      proxy_bad_gateway [where upstream = upstream_refused, OF sample_select r]
      proxy_bad_gateway [where upstream = upstream_timed_out, OF sample_select t]
    by simp
qed

subsection \<open>The clock of the background loop\<close>

text \<open>
  C10, amended. From the start of one pass of the background loop to the start of the
  next, the time that passes is the time the pass spent probing plus the fixed interval
  (10 seconds): the interval is counted from the end of a pass, and the loop sleeps it
  in full however long the probing took.
\<close>

theorem health_check_period:
  assumes "i < length inps"
  shows "fst (health_check_task servers inps ts ! Suc i) -
         fst (health_check_task servers inps ts ! i) =
           ci_probing_time (inps ! i) + of_int HEALTH_CHECK_INTERVAL"
  using assms
proof (induction inps arbitrary: i ts)
  case Nil
  then show ?case by simp
next
  case (Cons inp inps)
  show ?case
  proof (cases i)
    case 0
    have "fst (health_check_task servers inps ts' ! 0) = fst ts'" for ts'
      by (cases inps) simp_all
    with 0 show ?thesis
      by (simp add: health_check_pass_def split: prod.splits)
  next
    case (Suc j)
    with Cons.prems have "j < length inps"
      by simp
    from Cons.IH [OF this] Suc show ?thesis
      by simp
  qed
qed

theorem health_check_period_witness:
  "(0 :: nat) < length [\<lparr>ci_get = probe_all_up, ci_probing_time = 3\<rparr>] \<and>
   fst (health_check_task BACKEND_SERVERS [\<lparr>ci_get = probe_all_up, ci_probing_time = 3\<rparr>]
          (0, sample_state) ! Suc 0) -
   fst (health_check_task BACKEND_SERVERS [\<lparr>ci_get = probe_all_up, ci_probing_time = 3\<rparr>]
          (0, sample_state) ! 0) = 3 + 10"
proof -
  have h: "(0 :: nat) < length [\<lparr>ci_get = probe_all_up, ci_probing_time = 3\<rparr>]"
    by simp
  show ?thesis
    using h health_check_period [OF h, of BACKEND_SERVERS "(0, sample_state)"]
    by (simp add: HEALTH_CHECK_INTERVAL_def)
qed

text \<open>
  C10 as first stated fails as soon as probing takes time: a pass that probes for 3
  seconds is followed 13 seconds after its start, and one that probes for 15 seconds,
  longer than the interval, is followed 25 seconds after its start, not at once.
\<close>

theorem health_check_period_counterexample:
  "map fst (health_check_task BACKEND_SERVERS
       [\<lparr>ci_get = probe_all_up, ci_probing_time = 3\<rparr>,
        \<lparr>ci_get = probe_all_up, ci_probing_time = 15\<rparr>] (0, sample_state)) = [0, 13, 38] \<and>
   of_int HEALTH_CHECK_INTERVAL = (10 :: real)"
  by (simp add: health_check_pass_def HEALTH_CHECK_INTERVAL_def)

end
